theory Spec2Isabelle
  imports
    Main
    "HOL-Library.Sublist"
    "HOL-Library.Char_ord"
    "HOL-Library.List_Lexorder"
    "HOL-Library.Multiset"
begin

section \<open>Python primitives used by generate_seo.py\<close>

text \<open>
  Python strings are sequences of code points; here a string is its UTF-8 byte
  sequence (\<^typ>\<open>string\<close>). UTF-8 is self-synchronising and keeps the order of code
  points, so substring search, replacement and comparison of well-formed strings agree
  with Python's. The order on \<^typ>\<open>string\<close> is the lexicographic one of
  \<open>List_Lexorder\<close> over \<open>Char_ord\<close>, where a proper prefix is smaller.
\<close>

datatype error = KeyError string | FileNotFoundError string | ReError string

text \<open>Sequencing of computations that may raise: the first exception wins.\<close>

definition bind_err :: "error + 'a \<Rightarrow> ('a \<Rightarrow> error + 'b) \<Rightarrow> error + 'b" where
  "bind_err m f = (case m of Inl e \<Rightarrow> Inl e | Inr x \<Rightarrow> f x)"

text \<open>\<open>d[k]\<close> on a dictionary read from JSON: KeyError when the key is absent.\<close>

definition getitem :: "string \<Rightarrow> 'a option \<Rightarrow> error + 'a" where
  "getitem k v = (case v of None \<Rightarrow> Inl (KeyError k) | Some x \<Rightarrow> Inr x)"

text \<open>\<open>d.get(k, default)\<close>.\<close>

definition dict_get :: "'a option \<Rightarrow> 'a \<Rightarrow> 'a" where
  "dict_get v dflt = (case v of None \<Rightarrow> dflt | Some x \<Rightarrow> x)"

text \<open>A loop that builds a list and stops at the first exception.\<close>

fun map_err :: "('a \<Rightarrow> error + 'b) \<Rightarrow> 'a list \<Rightarrow> error + 'b list" where
  "map_err f [] = Inr []"
| "map_err f (x # xs) =
     (case f x of Inl e \<Rightarrow> Inl e
      | Inr y \<Rightarrow> (case map_err f xs of Inl e \<Rightarrow> Inl e | Inr ys \<Rightarrow> Inr (y # ys)))"

text \<open>\<open>k in s\<close> on strings.\<close>

fun str_contains :: "string \<Rightarrow> string \<Rightarrow> bool" where
  "str_contains k [] = (k = [])"
| "str_contains k (c # cs) = (prefix k (c # cs) \<or> str_contains k cs)"

text \<open>
  \<open>s.replace(old, new)\<close>: every non-overlapping occurrence of \<open>old\<close>, found from left
  to right, is replaced; the inserted text is not scanned again. With an empty \<open>old\<close>,
  Python inserts \<open>new\<close> before every character and at the end.
\<close>

function str_replace :: "string \<Rightarrow> string \<Rightarrow> string \<Rightarrow> string" where
  "str_replace old new [] = (if old = [] then new else [])"
| "str_replace old new (c # cs) =
     (if old = [] then new @ c # str_replace old new cs
      else if prefix old (c # cs)
        then new @ str_replace old new (drop (length old) (c # cs))
      else c # str_replace old new cs)"
  by pat_completeness auto
termination
  by (relation "measure (\<lambda>(old, new, s). length s)") auto

text \<open>\<open>sep.join(xs)\<close>.\<close>

fun join :: "string \<Rightarrow> string list \<Rightarrow> string" where
  "join sep [] = []"
| "join sep [x] = x"
| "join sep (x # y # ys) = x @ sep @ join sep (y # ys)"

text \<open>
  \<open>xml.sax.saxutils.escape\<close> with no extra entities: the ampersand first, then
  \<open>>\<close>, then \<open><\<close>.
\<close>

definition escape :: "string \<Rightarrow> string" where
  "escape data =
     str_replace ''<'' ''&lt;'' (str_replace ''>'' ''&gt;'' (str_replace ''&'' ''&amp;'' data))"

section \<open>Configuration constants\<close>

definition SITE_URL :: string where
  "SITE_URL = ''https://insight-chronicles.com''"

definition SITE_NAME :: string where
  "SITE_NAME = ''Insight Chronicles''"


definition TEMPLATE_FILE :: string where
  "TEMPLATE_FILE = ''article_template.html''"




section \<open>Data model\<close>

text \<open>
  Drafts and articles are dictionaries decoded from JSON. A field is \<open>None\<close> when the
  key is absent; the code reads some keys with \<open>d[k]\<close> (KeyError when absent) and
  others with \<open>d.get(k, default)\<close>.
\<close>

record draft =
  d_title :: "string option"
  d_desc :: "string option"
  d_slug :: "string option"
  d_date :: "string option"
  d_thumb :: "string option"
  d_thumb_og :: "string option"
  d_tags :: "string list option"
  d_content :: "string option"

record article =
  a_title :: "string option"
  a_slug :: "string option"
  a_url :: "string option"
  a_desc :: "string option"
  a_date :: "string option"
  a_thumb :: "string option"
  a_thumb_og :: "string option"
  a_tags :: "string list option"
  a_content_html :: "string option"

text \<open>
  The file system: a map from path to file content. Paths are compared as texts, and
  opening a path for writing is taken to succeed.
\<close>

type_synonym files = "string \<rightharpoonup> string"

section \<open>Publisher\<close>

text \<open>
  The \<open>replacements\<close> dictionary of \<open>build_article_html\<close>, in insertion order, which
  is the order the loop over \<open>replacements.items()\<close> follows. The values are evaluated
  in the order of the dictionary display, so the first absent required key raises.
\<close>

definition tagline :: "draft \<Rightarrow> string" where
  "tagline d =
     (let joined = join '', '' (dict_get (d_tags d) [])
      in if joined = [] then ''Insight Chronicles'' else joined)"

definition replacements :: "draft \<Rightarrow> error + (string \<times> string) list" where
  "replacements d =
     bind_err (getitem ''title'' (d_title d)) (\<lambda>title.
     bind_err (getitem ''desc'' (d_desc d)) (\<lambda>desc.
     bind_err (getitem ''slug'' (d_slug d)) (\<lambda>slug.
     bind_err (getitem ''date'' (d_date d)) (\<lambda>date.
     bind_err (getitem ''thumb'' (d_thumb d)) (\<lambda>thumb.
     bind_err (getitem ''thumb'' (d_thumb d)) (\<lambda>thumb_dflt.
     bind_err (getitem ''content'' (d_content d)) (\<lambda>content.
       Inr [(''{{TITLE}}'', title),
            (''{{DESCRIPTION}}'', desc),
            (''{{SLUG}}'', slug),
            (''{{DATE}}'', date),
            (''{{THUMB}}'', thumb),
            (''{{THUMB_OG}}'', dict_get (d_thumb_og d) thumb_dflt),
            (''{{TAGLINE}}'', tagline d),
            (''{{CONTENT}}'', content)])))))))"

definition substitute :: "(string \<times> string) list \<Rightarrow> string \<Rightarrow> string" where
  "substitute rs template = fold (\<lambda>(k, v) html. str_replace k v html) rs template"

definition build_article_html :: "string \<Rightarrow> draft \<Rightarrow> error + string" where
  "build_article_html template d =
     bind_err (replacements d) (\<lambda>rs. Inr (substitute rs template))"

text \<open>The record appended to the article sequence for a published draft.\<close>

definition new_article :: "draft \<Rightarrow> error + article" where
  "new_article d =
     bind_err (getitem ''title'' (d_title d)) (\<lambda>title.
     bind_err (getitem ''slug'' (d_slug d)) (\<lambda>slug.
     bind_err (getitem ''slug'' (d_slug d)) (\<lambda>slug_url.
     bind_err (getitem ''desc'' (d_desc d)) (\<lambda>desc.
     bind_err (getitem ''date'' (d_date d)) (\<lambda>date.
     bind_err (getitem ''thumb'' (d_thumb d)) (\<lambda>thumb.
     bind_err (getitem ''thumb'' (d_thumb d)) (\<lambda>thumb_dflt.
       Inr \<lparr> a_title = Some title,
             a_slug = Some slug,
             a_url = Some (SITE_URL @ ''/'' @ slug_url),
             a_desc = Some desc,
             a_date = Some date,
             a_thumb = Some thumb,
             a_thumb_og = Some (dict_get (d_thumb_og d) thumb_dflt),
             a_tags = Some (dict_get (d_tags d) []),
             a_content_html = Some (dict_get (d_content d) []) \<rparr>)))))))"

text \<open>
  The set \<open>existing_slugs\<close> is computed once, before the loop: \<open>a.get("slug")\<close> is
  \<open>None\<close> for an article with no slug.
\<close>

definition existing_slugs :: "article list \<Rightarrow> string option set" where
  "existing_slugs articles = set (map a_slug articles)"

text \<open>
  The loop of \<open>publish_drafts\<close> over the drafts, on the state it changes: the files,
  the article sequence (mutated in place by \<open>append\<close>) and the counter. An exception
  ends the run; the model returns the exception alone.
\<close>

fun publish_loop ::
  "string \<Rightarrow> string option set \<Rightarrow> draft list \<Rightarrow> files \<times> article list \<times> nat
    \<Rightarrow> error + (files \<times> article list \<times> nat)" where
  "publish_loop template existing [] st = Inr st"
| "publish_loop template existing (d # ds) (fs, articles, published) =
     bind_err (getitem ''slug'' (d_slug d)) (\<lambda>slug.
       if Some slug \<in> existing
       then publish_loop template existing ds (fs, articles, published)
       else
         bind_err (build_article_html template d) (\<lambda>html.
         bind_err (new_article d) (\<lambda>a.
           publish_loop template existing ds
             (fs(slug \<mapsto> html), articles @ [a], published + 1))))"

text \<open>
  \<open>publish_drafts\<close>: \<open>load_template\<close> raises when the template file is absent; the
  drafts are the list \<open>read_drafts\<close> returned, in directory-listing order.
\<close>

definition publish_drafts ::
  "files \<Rightarrow> draft list \<Rightarrow> article list \<Rightarrow> error + (files \<times> article list \<times> nat)" where
  "publish_drafts fs drafts articles =
     (case fs TEMPLATE_FILE of
        None \<Rightarrow> Inl (FileNotFoundError TEMPLATE_FILE)
      | Some template \<Rightarrow>
          publish_loop template (existing_slugs articles) drafts (fs, articles, 0))"

section \<open>Sorting by date\<close>

text \<open>
  Every listing uses \<open>sorted(articles, key=lambda x: x.get("date", ""), reverse=True)\<close>.
  Python's sort is stable, and with \<open>reverse=True\<close> it reverses the list, sorts it
  ascending and reverses the result, so articles with equal dates keep their order.
\<close>

definition date_key :: "article \<Rightarrow> string" where
  "date_key a = dict_get (a_date a) []"

definition sorted_by_date :: "article list \<Rightarrow> article list" where
  "sorted_by_date articles = rev (sort_key date_key (rev articles))"

section \<open>Categories\<close>

record category_info =
  c_file :: string
  c_title :: string
  c_desc :: string

text \<open>The dictionary \<open>CATEGORIES\<close>, in insertion order.\<close>

definition CATEGORIES :: "(string \<times> category_info) list" where
  "CATEGORIES =
     [(''History'',
       \<lparr> c_file = ''history.html'', c_title = ''History & Civilisations'',
         c_desc = ''Long-form essays exploring empires, trade networks, institutions and the foundations of power.'' \<rparr>),
      (''Geopolitics'',
       \<lparr> c_file = ''geopolitics.html'', c_title = ''Geopolitics & Strategy'',
         c_desc = ''Analysis of power, alliances, industrial policy, and the evolving world order.'' \<rparr>),
      (''Technology'',
       \<lparr> c_file = ''technology.html'', c_title = ''Technology & AI'',
         c_desc = ''Deep dives into technology, AI, manufacturing capability, and the systems behind modern power.'' \<rparr>),
      (''Governance'',
       \<lparr> c_file = ''governance.html'', c_title = ''Governance & Institutions'',
         c_desc = ''Articles exploring reforms, public infrastructure, institutional design, and systems that scale.'' \<rparr>)]"

section \<open>Sitemap\<close>

definition sitemap_fixed_urls :: "string list" where
  "sitemap_fixed_urls =
     [''  <url><loc>'' @ SITE_URL @ ''/</loc><priority>1.0</priority></url>'',
      ''  <url><loc>'' @ SITE_URL @ ''/articles.html</loc><priority>0.9</priority></url>'',
      ''  <url><loc>'' @ SITE_URL @ ''/search.html</loc><priority>0.7</priority></url>'']"

definition sitemap_category_url :: "category_info \<Rightarrow> string" where
  "sitemap_category_url cat =
     ''  <url><loc>'' @ SITE_URL @ ''/'' @ c_file cat @ ''</loc><priority>0.7</priority></url>''"

definition sitemap_article_url :: "article \<Rightarrow> error + string" where
  "sitemap_article_url a =
     bind_err (getitem ''url'' (a_url a)) (\<lambda>url.
       Inr (''  <url><loc>'' @ escape url @ ''</loc><priority>0.8</priority></url>''))"

definition sitemap_head :: string where
  \<open>sitemap_head =
     ''<?xml version="1.0" encoding="UTF-8"?>\<newline>''
     @ ''<urlset xmlns="http://www.sitemaps.org/schemas/sitemap/0.9">\<newline>''\<close>

definition sitemap_tail :: string where
  "sitemap_tail = ''\<newline></urlset>\<newline>''"

definition make_sitemap :: "article list \<Rightarrow> error + string" where
  "make_sitemap articles =
     bind_err (map_err sitemap_article_url (sorted_by_date articles)) (\<lambda>article_urls.
       Inr (sitemap_head
            @ join ''\<newline>''
                (sitemap_fixed_urls @ map (\<lambda>(name, cat). sitemap_category_url cat) CATEGORIES
                  @ article_urls)
            @ sitemap_tail))"

section \<open>RSS feed\<close>







section \<open>Homepage cards\<close>

definition homepage_card_html :: \<open>string \<Rightarrow> string \<Rightarrow> string \<Rightarrow> string \<Rightarrow> string \<Rightarrow> string \<Rightarrow> string\<close> where
  \<open>homepage_card_html title slug thumb tag_spans date desc =
     ''\<newline>''
     @ ''        <article class="ic-article-card">\<newline>''
     @ ''          <a href="''
     @ slug
     @ ''" class="ic-article-thumb-link">\<newline>''
     @ ''            <img src="''
     @ thumb
     @ ''" alt="''
     @ title
     @ ''" class="ic-article-thumb" />\<newline>''
     @ ''          </a>\<newline>''
     @ ''          <div>\<newline>''
     @ ''            <div class="ic-article-tags">''
     @ tag_spans
     @ ''</div>\<newline>''
     @ ''            <h3 class="ic-article-title"><a href="''
     @ slug
     @ ''">''
     @ title
     @ ''</a></h3>\<newline>''
     @ ''            <p class="ic-article-meta">''
     @ date
     @ ''</p>\<newline>''
     @ ''            <p class="ic-article-excerpt">''
     @ desc
     @ ''</p>\<newline>''
     @ ''            <a href="''
     @ slug
     @ ''" class="ic-article-read">Read article ''
     @ [CHR 0xE2, CHR 0x86, CHR 0x92]
     @ ''</a>\<newline>''
     @ ''          </div>\<newline>''
     @ ''        </article>\<newline>''
     @ ''        ''\<close>
definition homepage_tag_spans :: "string list \<Rightarrow> string" where
  \<open>homepage_tag_spans tags =
     concat (map (\<lambda>t. ''<span class="ic-tag">'' @ escape t @ ''</span>'') (take 3 tags))\<close>

definition homepage_card :: "article \<Rightarrow> error + string" where
  "homepage_card a =
     bind_err (getitem ''title'' (a_title a)) (\<lambda>title.
     bind_err (getitem ''slug'' (a_slug a)) (\<lambda>slug.
       Inr (homepage_card_html (escape title) (escape slug)
              (escape (dict_get (a_thumb a) ''images/upi.webp''))
              (homepage_tag_spans (dict_get (a_tags a) []))
              (escape (dict_get (a_date a) []))
              (escape (dict_get (a_desc a) [])))))"

definition make_homepage_cards :: "article list \<Rightarrow> nat \<Rightarrow> error + string" where
  "make_homepage_cards articles limit =
     bind_err (map_err homepage_card (take limit (sorted_by_date articles))) (\<lambda>blocks.
       Inr (join ''\<newline>'' blocks))"

section \<open>Homepage update\<close>






section \<open>Articles index page\<close>

definition articles_card_html :: \<open>string \<Rightarrow> string \<Rightarrow> string \<Rightarrow> string \<Rightarrow> string \<Rightarrow> string \<Rightarrow> string\<close> where
  \<open>articles_card_html title slug thumb tags_html date desc =
     ''\<newline>''
     @ ''        <article class="card">\<newline>''
     @ ''          <a href="''
     @ slug
     @ ''" class="thumbwrap">\<newline>''
     @ ''            <img src="''
     @ thumb
     @ ''" alt="''
     @ title
     @ ''" />\<newline>''
     @ ''          </a>\<newline>''
     @ ''          <div class="cardbody">\<newline>''
     @ ''            <div class="tags">''
     @ tags_html
     @ ''</div>\<newline>''
     @ ''            <h2><a href="''
     @ slug
     @ ''">''
     @ title
     @ ''</a></h2>\<newline>''
     @ ''            <p class="meta">''
     @ date
     @ ''</p>\<newline>''
     @ ''            <p class="desc">''
     @ desc
     @ ''</p>\<newline>''
     @ ''            <a class="read" href="''
     @ slug
     @ ''">Read article ''
     @ [CHR 0xE2, CHR 0x86, CHR 0x92]
     @ ''</a>\<newline>''
     @ ''          </div>\<newline>''
     @ ''        </article>\<newline>''
     @ ''        ''\<close>
definition articles_tags_html :: "string list \<Rightarrow> string" where
  \<open>articles_tags_html tags =
     join '' '' (map (\<lambda>t. ''<span class="tag">'' @ escape t @ ''</span>'') tags)\<close>

definition articles_card :: "article \<Rightarrow> error + string" where
  "articles_card a =
     bind_err (getitem ''title'' (a_title a)) (\<lambda>title.
     bind_err (getitem ''slug'' (a_slug a)) (\<lambda>slug.
       Inr (articles_card_html (escape title) (escape slug)
              (escape (dict_get (a_thumb a) ''images/upi.webp''))
              (articles_tags_html (dict_get (a_tags a) []))
              (escape (dict_get (a_date a) []))
              (escape (dict_get (a_desc a) [])))))"

definition articles_page_head :: \<open>string\<close> where
  \<open>articles_page_head =
     ''<!doctype html>\<newline>''
     @ ''<html lang="en">\<newline>''
     @ ''<head>\<newline>''
     @ ''  <meta charset="utf-8" />\<newline>''
     @ ''  <meta name="viewport" content="width=device-width,initial-scale=1" />\<newline>''
     @ ''  <title>Articles ''
     @ [CHR 0xE2, CHR 0x80, CHR 0x93]
     @ '' ''
     @ SITE_NAME
     @ ''</title>\<newline>''
     @ ''  <meta name="description" content="All long-form articles published on ''
     @ SITE_NAME
     @ ''." />\<newline>''
     @ ''  <link rel="stylesheet" href="styles.css" />\<newline>''
     @ ''</head>\<newline>''
     @ ''<body class="ic-body">\<newline>''
     @ ''  <div class="ic-topstrip">All articles ''
     @ [CHR 0xE2, CHR 0x80, CHR 0xA2]
     @ '' ''
     @ SITE_NAME
     @ ''</div>\<newline>''
     @ ''\<newline>''
     @ ''  <header class="ic-header">\<newline>''
     @ ''    <div class="ic-container ic-header-inner">\<newline>''
     @ ''      <a href="index.html" class="ic-logo">\<newline>''
     @ ''        <span class="ic-logo-mark">IC</span>\<newline>''
     @ ''        <span>\<newline>''
     @ ''          <span class="ic-logo-title">''
     @ SITE_NAME
     @ ''</span>\<newline>''
     @ ''          <span class="ic-logo-sub">Long-form global analysis</span>\<newline>''
     @ ''        </span>\<newline>''
     @ ''      </a>\<newline>''
     @ ''\<newline>''
     @ ''      <nav class="ic-nav">\<newline>''
     @ ''        <a href="index.html" class="ic-nav-link">Home</a>\<newline>''
     @ ''        <a href="articles.html" class="ic-nav-link ic-nav-link-active">Articles</a>\<newline>''
     @ ''        <a href="search.html" class="ic-nav-link">Search</a>\<newline>''
     @ ''      </nav>\<newline>''
     @ ''    </div>\<newline>''
     @ ''  </header>\<newline>''
     @ ''\<newline>''
     @ ''  <main class="ic-main">\<newline>''
     @ ''    <div class="ic-container">\<newline>''
     @ ''      <div class="ic-section-header">\<newline>''
     @ ''        <h1>All Articles</h1>\<newline>''
     @ ''        <p>Newest first.</p>\<newline>''
     @ ''      </div>\<newline>''
     @ ''\<newline>''
     @ ''      <div class="ic-articles-grid">\<newline>''
     @ ''        ''\<close>
definition articles_page_tail :: \<open>string\<close> where
  \<open>articles_page_tail =
     ''\<newline>''
     @ ''      </div>\<newline>''
     @ ''    </div>\<newline>''
     @ ''  </main>\<newline>''
     @ ''\<newline>''
     @ ''  <footer class="ic-footer">\<newline>''
     @ ''    <div class="ic-container ic-footer-bottom">''
     @ [CHR 0xC2, CHR 0xA9]
     @ '' 2025 ''
     @ SITE_NAME
     @ ''. All rights reserved.</div>\<newline>''
     @ ''  </footer>\<newline>''
     @ ''</body>\<newline>''
     @ ''</html>\<newline>''\<close>
definition make_articles_page :: "article list \<Rightarrow> error + string" where
  "make_articles_page articles =
     bind_err (map_err articles_card (sorted_by_date articles)) (\<lambda>cards.
       Inr (articles_page_head @ concat cards @ articles_page_tail))"

section \<open>Category pages\<close>

definition category_card_html :: \<open>string \<Rightarrow> string \<Rightarrow> string \<Rightarrow> string \<Rightarrow> string \<Rightarrow> string\<close> where
  \<open>category_card_html title slug thumb date desc =
     ''\<newline>''
     @ ''        <article class="ic-article-card">\<newline>''
     @ ''          <a href="''
     @ slug
     @ ''" class="ic-article-thumb-link">\<newline>''
     @ ''            <img src="''
     @ thumb
     @ ''" alt="''
     @ title
     @ ''" class="ic-article-thumb" />\<newline>''
     @ ''          </a>\<newline>''
     @ ''          <div>\<newline>''
     @ ''            <h3 class="ic-article-title"><a href="''
     @ slug
     @ ''">''
     @ title
     @ ''</a></h3>\<newline>''
     @ ''            <p class="ic-article-meta">''
     @ date
     @ ''</p>\<newline>''
     @ ''            <p class="ic-article-excerpt">''
     @ desc
     @ ''</p>\<newline>''
     @ ''            <a href="''
     @ slug
     @ ''" class="ic-article-read">Read article ''
     @ [CHR 0xE2, CHR 0x86, CHR 0x92]
     @ ''</a>\<newline>''
     @ ''          </div>\<newline>''
     @ ''        </article>\<newline>''
     @ ''        ''\<close>
definition category_card :: "article \<Rightarrow> error + string" where
  "category_card a =
     bind_err (getitem ''title'' (a_title a)) (\<lambda>title.
     bind_err (getitem ''slug'' (a_slug a)) (\<lambda>slug.
       Inr (category_card_html (escape title) (escape slug)
              (escape (dict_get (a_thumb a) ''images/upi.webp''))
              (escape (dict_get (a_date a) []))
              (escape (dict_get (a_desc a) [])))))"

definition category_page_head :: \<open>category_info \<Rightarrow> string\<close> where
  \<open>category_page_head info =
     ''<!doctype html>\<newline>''
     @ ''<html lang="en">\<newline>''
     @ ''<head>\<newline>''
     @ ''  <meta charset="utf-8" />\<newline>''
     @ ''  <meta name="viewport" content="width=device-width,initial-scale=1" />\<newline>''
     @ ''  <title>''
     @ escape (c_title info)
     @ '' ''
     @ [CHR 0xE2, CHR 0x80, CHR 0x93]
     @ '' ''
     @ SITE_NAME
     @ ''</title>\<newline>''
     @ ''  <meta name="description" content="''
     @ escape (c_desc info)
     @ ''" />\<newline>''
     @ ''  <link rel="stylesheet" href="styles.css" />\<newline>''
     @ ''</head>\<newline>''
     @ ''<body class="ic-body">\<newline>''
     @ ''\<newline>''
     @ ''<header class="ic-header">\<newline>''
     @ ''  <div class="ic-container ic-header-inner">\<newline>''
     @ ''    <a href="index.html" class="ic-logo">\<newline>''
     @ ''      <span class="ic-logo-mark">IC</span>\<newline>''
     @ ''      <span>\<newline>''
     @ ''        <span class="ic-logo-title">''
     @ SITE_NAME
     @ ''</span>\<newline>''
     @ ''        <span class="ic-logo-sub">Long-form global analysis</span>\<newline>''
     @ ''      </span>\<newline>''
     @ ''    </a>\<newline>''
     @ ''\<newline>''
     @ ''    <nav class="ic-nav">\<newline>''
     @ ''      <a href="index.html" class="ic-nav-link">Home</a>\<newline>''
     @ ''      <a href="articles.html" class="ic-nav-link">Articles</a>\<newline>''
     @ ''      <a href="search.html" class="ic-nav-link">Search</a>\<newline>''
     @ ''    </nav>\<newline>''
     @ ''  </div>\<newline>''
     @ ''</header>\<newline>''
     @ ''\<newline>''
     @ ''<main class="ic-main">\<newline>''
     @ ''  <div class="ic-container">\<newline>''
     @ ''    <section class="ic-sidebar-block">\<newline>''
     @ ''      <h1 style="margin-top:0;">''
     @ escape (c_title info)
     @ ''</h1>\<newline>''
     @ ''      <p style="color:#cbd5f5;">''
     @ escape (c_desc info)
     @ ''</p>\<newline>''
     @ ''    </section>\<newline>''
     @ ''\<newline>''
     @ ''    <section class="ic-sidebar-block">\<newline>''
     @ ''      <h2 style="margin-top:0;">Articles</h2>\<newline>''
     @ ''      ''\<close>
definition category_page_tail :: \<open>string\<close> where
  \<open>category_page_tail =
     ''\<newline>''
     @ ''    </section>\<newline>''
     @ ''  </div>\<newline>''
     @ ''</main>\<newline>''
     @ ''\<newline>''
     @ ''<footer class="ic-footer">\<newline>''
     @ ''  <div class="ic-container ic-footer-bottom">''
     @ [CHR 0xC2, CHR 0xA9]
     @ '' 2025 ''
     @ SITE_NAME
     @ ''. All rights reserved.</div>\<newline>''
     @ ''</footer>\<newline>''
     @ ''\<newline>''
     @ ''</body>\<newline>''
     @ ''</html>\<newline>''\<close>
definition category_empty_html :: string where
  "category_empty_html =
     ''<p style='' @ [CHR 0x27] @ ''color:#9ca3af;'' @ [CHR 0x27]
     @ ''>No articles published yet. Coming soon.</p>''"

text \<open>The articles of a category page, in page order: \<open>filtered\<close> after the sort.\<close>

definition category_articles :: "string \<Rightarrow> article list \<Rightarrow> article list" where
  "category_articles tag_name articles =
     sorted_by_date (filter (\<lambda>a. tag_name \<in> set (dict_get (a_tags a) [])) articles)"

definition make_category_page :: "string \<Rightarrow> category_info \<Rightarrow> article list \<Rightarrow> error + string" where
  "make_category_page tag_name info articles =
     bind_err (map_err category_card (category_articles tag_name articles)) (\<lambda>cards.
       Inr (category_page_head info
            @ (if cards = [] then category_empty_html else join ''\<newline>'' cards)
            @ category_page_tail))"

section \<open>Auxiliary notions and example data\<close>

text \<open>The keys of the \<open>replacements\<close> dictionary, and text without braces.\<close>

definition placeholder_keys :: "string list" where
  "placeholder_keys = [''{{TITLE}}'', ''{{DESCRIPTION}}'', ''{{SLUG}}'', ''{{DATE}}'',
     ''{{THUMB}}'', ''{{THUMB_OG}}'', ''{{TAGLINE}}'', ''{{CONTENT}}'']"

definition brace_free :: "string \<Rightarrow> bool" where
  "brace_free s = (CHR ''{'' \<notin> set s \<and> CHR ''}'' \<notin> set s)"

text \<open>
  \<open>s.count(k)\<close>: the number of non-overlapping occurrences of \<open>k\<close> in \<open>s\<close>, found
  from left to right. It measures how many entries a generated document holds.
\<close>

function str_count :: "string \<Rightarrow> string \<Rightarrow> nat" where
  "str_count k [] = (if k = [] then 1 else 0)"
| "str_count k (c # cs) =
     (if k = [] then 1 + str_count k cs
      else if prefix k (c # cs) then 1 + str_count k (drop (length k) (c # cs))
      else str_count k cs)"
  by pat_completeness auto
termination
  by (relation "measure (\<lambda>(k, s). length s)") auto

text \<open>A line that holds exactly one \<open><url>\<close> opening tag, whatever follows it.\<close>

abbreviation one_url :: "string \<Rightarrow> bool" where
  "one_url l \<equiv> (\<forall>s. str_count ''<url>'' (l @ s) = Suc (str_count ''<url>'' s))"


text \<open>An article with every tag behind the third removed.\<close>

definition first_three_tags :: "article \<Rightarrow> article" where
  "first_three_tags a = a \<lparr> a_tags := map_option (take 3) (a_tags a) \<rparr>"

text \<open>
  Example data: the draft of the scenario in the specification, the article record it is
  published as, further articles, small templates and homepage files.
\<close>

definition draft_a :: draft where
  "draft_a = \<lparr> d_title = Some ''T'', d_desc = Some ''D'', d_slug = Some ''a.html'',
     d_date = Some ''2025-01-01'', d_thumb = Some ''t.webp'', d_thumb_og = None,
     d_tags = None, d_content = Some ''<p>x</p>'' \<rparr>"

definition article_a :: article where
  "article_a = \<lparr> a_title = Some ''T'', a_slug = Some ''a.html'',
     a_url = Some ''https://insight-chronicles.com/a.html'', a_desc = Some ''D'',
     a_date = Some ''2025-01-01'', a_thumb = Some ''t.webp'', a_thumb_og = Some ''t.webp'',
     a_tags = Some [], a_content_html = Some ''<p>x</p>'' \<rparr>"

definition article_b :: article where
  "article_b = \<lparr> a_title = Some ''U'', a_slug = Some ''b.html'',
     a_url = Some ''https://insight-chronicles.com/b.html'', a_desc = None,
     a_date = Some ''2025-02-01'', a_thumb = None, a_thumb_og = None,
     a_tags = Some [''History'', ''Ancient History'', ''Rome'', ''Trade''],
     a_content_html = None \<rparr>"

definition article_c :: article where
  "article_c = \<lparr> a_title = Some ''V'', a_slug = Some ''c.html'',
     a_url = Some ''https://insight-chronicles.com/c.html'', a_desc = None,
     a_date = Some ''2025-03-01'', a_thumb = None, a_thumb_og = None,
     a_tags = Some [''Ancient History''], a_content_html = None \<rparr>"


definition files_a :: files where
  "files_a = [TEMPLATE_FILE \<mapsto> ''<h1>{{TITLE}}</h1>{{CONTENT}}'']"



definition draft_nested :: draft where
  "draft_nested = draft_a \<lparr> d_title := Some ''{{CONTENT}}'' \<rparr>"

definition draft_quoting :: draft where
  "draft_quoting = draft_a \<lparr> d_date := Some ''{{TITLE}} 2025'' \<rparr>"

definition info_history :: category_info where
  "info_history = \<lparr> c_file = ''history.html'', c_title = ''History & Civilisations'',
     c_desc = ''Long-form essays exploring empires, trade networks, institutions and the foundations of power.'' \<rparr>"






section \<open>Basic facts\<close>

lemma bind_err_simps [simp]:
  "bind_err (Inl e) f = Inl e"
  "bind_err (Inr x) f = f x"
  by (simp_all add: bind_err_def)

lemma getitem_simps [simp]:
  "getitem k None = Inl (KeyError k)"
  "getitem k (Some x) = Inr x"
  by (simp_all add: getitem_def)

lemma dict_get_simps [simp]:
  "dict_get None dflt = dflt"
  "dict_get (Some x) dflt = x"
  by (simp_all add: dict_get_def)

lemma map_err_list_all2:
  "map_err f xs = Inr ys \<Longrightarrow> list_all2 (\<lambda>x y. f x = Inr y) xs ys"
  by (induction xs arbitrary: ys) (auto split: sum.splits)

lemma map_err_total:
  "\<forall>x \<in> set xs. \<exists>y. f x = Inr y \<Longrightarrow> \<exists>ys. map_err f xs = Inr ys"
  by (induction xs) (auto split: sum.splits)

subsection \<open>Replacement and search in strings\<close>

lemma str_replace_absent:
  "\<not> str_contains k s \<Longrightarrow> str_replace k v s = s"
  by (induction s) auto

lemma str_replace_self:
  "k \<noteq> [] \<Longrightarrow> str_replace k v k = v"
  by (cases k) simp_all

lemma str_replace_at_occurrence:
  "k \<noteq> [] \<Longrightarrow> str_replace k v (k @ b) = v @ str_replace k v b"
  by (cases k) simp_all

lemma str_replace_skip_prefix:
  assumes "k \<noteq> []" and "hd k \<notin> set pre"
  shows "str_replace k v (pre @ s) = pre @ str_replace k v s"
  using assms
proof (induction pre)
  case Nil
  show ?case by simp
next
  case (Cons c pre)
  then have "\<not> prefix k (c # pre @ s)"
    by (cases k) auto
  with Cons show ?case by simp
qed

lemma str_contains_set:
  "str_contains k s \<Longrightarrow> set k \<subseteq> set s"
proof (induction s)
  case Nil
  then show ?case by simp
next
  case (Cons c cs)
  then consider "prefix k (c # cs)" | "str_contains k cs" by auto
  then show ?case
  proof cases
    case 1
    then show ?thesis by (rule set_mono_prefix)
  next
    case 2
    with Cons.IH show ?thesis by auto
  qed
qed

lemma prefix_append_last:
  assumes "k \<noteq> []" and "last k \<notin> set suf"
  shows "prefix k (s @ suf) \<longleftrightarrow> prefix k s"
proof
  assume "prefix k (s @ suf)"
  then have "prefix k s \<or> (\<exists>k2. k = s @ k2 \<and> prefix k2 suf)"
    by (simp add: prefix_append)
  then show "prefix k s"
  proof
    assume "\<exists>k2. k = s @ k2 \<and> prefix k2 suf"
    then obtain k2 where k2: "k = s @ k2" "prefix k2 suf" by blast
    show ?thesis
    proof (cases "k2 = []")
      case True
      with k2 show ?thesis by simp
    next
      case False
      then have "last k = last k2" using k2 by simp
      moreover have "last k2 \<in> set suf"
        using False k2(2) set_mono_prefix [of k2 suf] last_in_set [of k2] by blast
      ultimately show ?thesis using assms by simp
    qed
  qed
qed simp

lemma str_replace_skip_suffix:
  assumes "k \<noteq> []" and "last k \<notin> set suf"
  shows "str_replace k v (s @ suf) = str_replace k v s @ suf"
  using assms
proof (induction k v s rule: str_replace.induct)
  case (1 old new)
  then have "\<not> str_contains old suf"
    using str_contains_set [of old suf] last_in_set [of old] by blast
  with 1 show ?case by (simp add: str_replace_absent)
next
  case (2 old new c cs)
  have pre: "prefix old (c # cs @ suf) \<longleftrightarrow> prefix old (c # cs)"
    using prefix_append_last [of old suf "c # cs"] 2 by simp
  show ?case
  proof (cases "prefix old (c # cs)")
    case True
    then have "length old \<le> length (c # cs)"
      by (rule prefix_length_le)
    then have "drop (length old) (c # cs @ suf) = drop (length old) (c # cs) @ suf"
      by (metis append_Cons drop_append diff_is_0_eq drop0)
    with 2 True pre show ?thesis by simp
  next
    case False
    with 2 pre show ?thesis by simp
  qed
qed

lemma str_replace_char_absent:
  "c \<notin> set new \<Longrightarrow> c \<notin> set (str_replace [c] new s)"
  by (induction s) auto

lemma escape_no_lt: "CHR ''<'' \<notin> set (escape s)"
  unfolding escape_def by (rule str_replace_char_absent) simp

lemma str_count_skip:
  assumes "k \<noteq> []" and "hd k \<notin> set x"
  shows "str_count k (x @ s) = str_count k s"
  using assms
proof (induction x)
  case Nil
  show ?case by simp
next
  case (Cons c x)
  then have "\<not> prefix k (c # x @ s)"
    by (cases k) auto
  with Cons show ?case by simp
qed

lemma str_contains_prefix: "prefix k s \<Longrightarrow> str_contains k s"
  by (cases s) simp_all







lemma str_replace_first_occurrence:
  assumes "k \<noteq> []" and "\<not> str_contains k (a @ butlast k)"
  shows "str_replace k v (a @ k @ b) = a @ v @ str_replace k v b"
  using assms(2)
proof (induction a)
  case Nil
  show ?case
    using assms(1) by (simp add: str_replace_at_occurrence)
next
  case (Cons c a)
  have "\<not> prefix k ((c # a) @ k @ b)"
  proof
    assume pre: "prefix k ((c # a) @ k @ b)"
    have "k = butlast k @ [last k]"
      using assms(1) by simp
    then have "(c # a) @ k @ b = ((c # a) @ butlast k) @ (last k # b)"
      by (metis append.assoc append_Cons append_Nil)
    then have "prefix ((c # a) @ butlast k) ((c # a) @ k @ b)"
      using prefixI by blast
    moreover have "length k \<le> length ((c # a) @ butlast k)"
      by simp
    ultimately have "prefix k ((c # a) @ butlast k)"
      using pre prefix_length_prefix by blast
    then have "str_contains k ((c # a) @ butlast k)"
      by (rule str_contains_prefix)
    with Cons.prems show False by simp
  qed
  then have "str_replace k v ((c # a) @ k @ b) = c # str_replace k v (a @ k @ b)"
    using assms(1) by simp
  moreover have "\<not> str_contains k (a @ butlast k)"
    using Cons.prems by simp
  ultimately show ?case
    using Cons.IH by simp
qed

subsection \<open>Placeholder keys and successive replacements\<close>

lemma replacements_keys:
  "replacements d = Inr rs \<Longrightarrow> map fst rs = placeholder_keys"
  by (auto simp: replacements_def placeholder_keys_def bind_err_def getitem_def
      split: option.splits)

lemma placeholder_keys_shape:
  "k \<in> set placeholder_keys \<Longrightarrow> k \<noteq> [] \<and> hd k = CHR ''{'' \<and> last k = CHR ''}''"
  by (auto simp: placeholder_keys_def)

lemma placeholder_keys_distinct: "distinct placeholder_keys"
  by (simp add: placeholder_keys_def)

lemma placeholder_keys_apart_all:
  "list_all (\<lambda>k. list_all (\<lambda>k'. k = k' \<or> \<not> str_contains k k') placeholder_keys) placeholder_keys"
  unfolding placeholder_keys_def by simp

lemma placeholder_keys_apart:
  "k \<in> set placeholder_keys \<Longrightarrow> k' \<in> set placeholder_keys \<Longrightarrow> k \<noteq> k'
    \<Longrightarrow> \<not> str_contains k k'"
  using placeholder_keys_apart_all unfolding list_all_iff by blast

lemma substitute_Nil [simp]: "substitute [] s = s"
  by (simp add: substitute_def)

lemma substitute_Cons [simp]: "substitute ((k, v) # rs) s = substitute rs (str_replace k v s)"
  by (simp add: substitute_def)

lemma substitute_append: "substitute (xs @ ys) s = substitute ys (substitute xs s)"
  by (simp add: substitute_def)

lemma substitute_absent:
  "\<forall>(k, v) \<in> set rs. \<not> str_contains k s \<Longrightarrow> substitute rs s = s"
  by (induction rs) (auto simp: str_replace_absent)

lemma substitute_framed:
  assumes "set (map fst rs) \<subseteq> set placeholder_keys" and "brace_free pre" and "brace_free suf"
  shows "substitute rs (pre @ s @ suf) = pre @ substitute rs s @ suf"
  using assms(1)
proof (induction rs arbitrary: s)
  case Nil
  show ?case by simp
next
  case (Cons kv rs)
  obtain k v where kv: "kv = (k, v)" by (cases kv)
  with Cons.prems have k: "k \<noteq> []" "hd k = CHR ''{''" "last k = CHR ''}''"
    using placeholder_keys_shape [of k] by auto
  have "str_replace k v (pre @ s @ suf) = pre @ str_replace k v s @ suf"
    using k assms(2,3)
    by (simp add: brace_free_def str_replace_skip_prefix
        str_replace_skip_suffix [of k suf v s])
  with Cons kv show ?case by simp
qed

subsection \<open>Sorting by date\<close>

lemma mset_sorted_by_date: "mset (sorted_by_date articles) = mset articles"
  by (simp add: sorted_by_date_def)

lemma set_sorted_by_date: "set (sorted_by_date articles) = set articles"
  by (simp add: sorted_by_date_def)

lemma length_sorted_by_date: "length (sorted_by_date articles) = length articles"
  by (simp add: sorted_by_date_def)

lemma sorted_by_date_descending:
  "sorted_wrt (\<lambda>a b. date_key b \<le> date_key a) (sorted_by_date articles)"
  using sorted_sort_key [of date_key "rev articles"]
  by (simp add: sorted_by_date_def sorted_wrt_rev sorted_map)

lemma sorted_by_date_position:
  assumes "i < length articles" and "j < length articles"
    and "date_key (sorted_by_date articles ! j) < date_key (sorted_by_date articles ! i)"
  shows "i < j"
proof (rule ccontr)
  assume "\<not> i < j"
  then consider "i = j" | "j < i" by linarith
  then show False
  proof cases
    case 1
    with assms(3) show False by simp
  next
    case 2
    then have "date_key (sorted_by_date articles ! i) \<le> date_key (sorted_by_date articles ! j)"
      using sorted_by_date_descending [of articles] assms(1)
      by (simp add: sorted_wrt_iff_nth_less length_sorted_by_date)
    with assms(3) show False by simp
  qed
qed

lemma insort_key_map:
  "insort_key k (f x) (map f xs) = map f (insort_key (\<lambda>y. k (f y)) x xs)"
  by (induction xs) simp_all

lemma sort_key_map:
  "sort_key k (map f xs) = map f (sort_key (\<lambda>y. k (f y)) xs)"
  by (induction xs) (simp_all add: insort_key_map)

lemma map_err_map: "map_err f (map g xs) = map_err (\<lambda>x. f (g x)) xs"
  by (induction xs) (auto split: sum.splits)

section \<open>The publisher\<close>



lemma draft_a_slug: "d_slug draft_a = Some ''a.html''"
  by (simp add: draft_a_def)

lemma new_article_draft_a: "new_article draft_a = Inr article_a"
  by (simp add: new_article_def draft_a_def article_a_def SITE_URL_def)

lemma build_draft_a:
  "build_article_html ''<h1>{{TITLE}}</h1>{{CONTENT}}'' draft_a = Inr ''<h1>T</h1><p>x</p>''"
  by (simp add: build_article_html_def replacements_def draft_a_def tagline_def)

text \<open>
  The slugs of the article sequence after a run: those of the store, followed by the
  slugs of the drafts that are not in the store at the start, in batch order; the
  counter is their number. So a store with pairwise different slugs keeps them
  pairwise different when the drafts of the batch have pairwise different slugs.
\<close>

lemma publish_loop_slugs:
  "publish_loop t ex ds (fs, arts, n) = Inr (fs', arts', n')
    \<Longrightarrow> map a_slug arts' = map a_slug arts @ filter (\<lambda>s. s \<notin> ex) (map d_slug ds)
      \<and> n' = n + length (filter (\<lambda>s. s \<notin> ex) (map d_slug ds))"
proof (induction ds arbitrary: fs arts n)
  case Nil
  then show ?case by simp
next
  case (Cons d ds)
  from Cons.prems obtain slug where slug: "d_slug d = Some slug"
    by (cases "d_slug d") simp_all
  show ?case
  proof (cases "Some slug \<in> ex")
    case True
    with Cons.prems slug have "publish_loop t ex ds (fs, arts, n) = Inr (fs', arts', n')"
      by simp
    from Cons.IH [OF this] slug True show ?thesis by simp
  next
    case False
    with Cons.prems slug obtain html a where
      a: "new_article d = Inr a"
      and rest: "publish_loop t ex ds (fs(slug \<mapsto> html), arts @ [a], n + 1) = Inr (fs', arts', n')"
      by (cases "build_article_html t d"; cases "new_article d") simp_all
    from a slug have "a_slug a = Some slug"
      by (auto simp: new_article_def bind_err_def getitem_def split: option.splits)
    with Cons.IH [OF rest] slug False show ?thesis by auto
  qed
qed

lemma publish_drafts_slugs:
  assumes "publish_drafts fs drafts articles = Inr (fs', articles', n)"
  shows "map a_slug articles'
      = map a_slug articles @ filter (\<lambda>s. s \<notin> existing_slugs articles) (map d_slug drafts)"
    and "n = length (filter (\<lambda>s. s \<notin> existing_slugs articles) (map d_slug drafts))"
  using assms publish_loop_slugs [of _ "existing_slugs articles" drafts fs articles 0 fs' articles' n]
  by (auto simp: publish_drafts_def split: option.splits)

lemma publish_drafts_distinct_slugs:
  assumes "publish_drafts fs drafts articles = Inr (fs', articles', n)"
    and "distinct (map a_slug articles)" and "distinct (map d_slug drafts)"
  shows "distinct (map a_slug articles')"
  using assms(2,3) unfolding publish_drafts_slugs(1) [OF assms(1)]
  by (auto simp: existing_slugs_def distinct_map_filter)



text \<open>
  Claim C1 says that after \<open>publish_drafts\<close> no two article records share a slug, also
  when several drafts of one batch carry the same new slug. The set of existing slugs is
  computed once before the loop and never extended, so two drafts of one batch with the
  same new slug are both published: on an empty store and the batch of the scenario's
  draft taken twice, the store ends with two records of slug \<open>a.html\<close>.
\<close>

theorem publish_drafts_same_batch_duplicate:
  "publish_drafts files_a [draft_a, draft_a] [] =
     Inr (files_a(''a.html'' \<mapsto> ''<h1>T</h1><p>x</p>''), [article_a, article_a], 2)
   \<and> \<not> distinct (map a_slug [article_a, article_a])"
  by (simp add: publish_drafts_def files_a_def existing_slugs_def new_article_draft_a
      build_draft_a draft_a_slug)






section \<open>Placeholder substitution\<close>

text \<open>
  Claim C3 as stated: a placeholder token inside a replacement value is never substituted
  again. The replacements are eight successive \<open>replace\<close> passes over the whole
  document, so a token of a key that is processed later is substituted by that later
  pass: with the template \<open>{{TITLE}}\<close> and the title \<open>{{CONTENT}}\<close>, the output is the
  draft's content, not the token.
\<close>

theorem build_article_html_resubstitution_counterexample:
  "d_title draft_nested = Some ''{{CONTENT}}''
   \<and> d_content draft_nested = Some ''<p>x</p>''
   \<and> build_article_html ''{{TITLE}}'' draft_nested = Inr ''<p>x</p>''"
  by (simp add: draft_nested_def draft_a_def build_article_html_def replacements_def
      tagline_def)

text \<open>
  Claim C3 as amended: the output is the template after one \<open>replace\<close> pass per
  key, in the order of \<open>placeholder_keys\<close>, each over the whole current document.
  A replacement value that contains no token of a key processed later survives
  verbatim where its placeholder stands between brace-free text, whatever tokens of
  its own key or of earlier keys it contains.
\<close>

theorem build_article_html_value_survives:
  assumes rs: "replacements d = Inr (before @ (k, v) # after)"
    and later: "\<forall>(k', v') \<in> set after. \<not> str_contains k' v"
    and pre: "brace_free pre" and suf: "brace_free suf"
  shows "build_article_html (pre @ k @ suf) d = Inr (pre @ v @ suf)
    \<and> map fst (before @ (k, v) # after) = placeholder_keys
    \<and> (\<forall>template. build_article_html template d
          = Inr (fold (\<lambda>(k, v) html. str_replace k v html) (before @ (k, v) # after) template))"
proof (intro conjI allI)
  have keys: "map fst before @ k # map fst after = placeholder_keys"
    using replacements_keys [OF rs] by simp
  then show "map fst (before @ (k, v) # after) = placeholder_keys"
    by simp
  show "build_article_html template d
      = Inr (fold (\<lambda>(k, v) html. str_replace k v html) (before @ (k, v) # after) template)"
    for template
    by (simp add: build_article_html_def rs substitute_def)
  have sub: "set (map fst before) \<subseteq> set placeholder_keys"
      "k \<in> set placeholder_keys" "set (map fst after) \<subseteq> set placeholder_keys"
  proof -
    have "set placeholder_keys = set (map fst before) \<union> {k} \<union> set (map fst after)"
      unfolding keys [symmetric] by auto
    then show "set (map fst before) \<subseteq> set placeholder_keys"
      "k \<in> set placeholder_keys" "set (map fst after) \<subseteq> set placeholder_keys"
      by blast+
  qed
  have "distinct (map fst before @ k # map fst after)"
    using keys placeholder_keys_distinct by simp
  then have notin: "k \<notin> set (map fst before)" by auto
  have "\<forall>(k', v') \<in> set before. \<not> str_contains k' k"
  proof (clarify)
    fix k' v' assume mem: "(k', v') \<in> set before" and c: "str_contains k' k"
    from mem have k': "k' \<in> set (map fst before)" by force
    with notin have "k' \<noteq> k" by blast
    moreover from k' sub(1) have "k' \<in> set placeholder_keys" by blast
    ultimately show False
      using placeholder_keys_apart [of k' k] sub(2) c by blast
  qed
  then have 1: "substitute before k = k"
    by (rule substitute_absent)
  have 2: "str_replace k v k = v"
    using sub(2) placeholder_keys_shape [of k] by (simp add: str_replace_self)
  have 3: "substitute after v = v"
    using later by (rule substitute_absent)
  have k: "k \<noteq> []" "hd k = CHR ''{''" "last k = CHR ''}''"
    using sub(2) placeholder_keys_shape [of k] by auto
  have "str_replace k v (pre @ k @ suf) = pre @ str_replace k v k @ suf"
    using k pre suf
    by (simp add: brace_free_def str_replace_skip_prefix
        str_replace_skip_suffix [of k suf v k])
  then have "substitute (before @ (k, v) # after) (pre @ k @ suf) = pre @ v @ suf"
    using 1 2 3 substitute_framed [OF sub(1) pre suf] substitute_framed [OF sub(3) pre suf]
    by (simp add: substitute_append)
  then show "build_article_html (pre @ k @ suf) d = Inr (pre @ v @ suf)"
    by (simp add: build_article_html_def rs)
qed

theorem build_article_html_value_survives_witness:
  "brace_free ''<b>'' \<and> brace_free ''</b>''
   \<and> build_article_html ''<b>{{DATE}}</b>'' draft_quoting = Inr ''<b>{{TITLE}} 2025</b>''"
proof -
  have rs: "replacements draft_quoting =
      Inr ([(''{{TITLE}}'', ''T''), (''{{DESCRIPTION}}'', ''D''), (''{{SLUG}}'', ''a.html'')]
           @ (''{{DATE}}'', ''{{TITLE}} 2025'')
           # [(''{{THUMB}}'', ''t.webp''), (''{{THUMB_OG}}'', ''t.webp''),
              (''{{TAGLINE}}'', ''Insight Chronicles''), (''{{CONTENT}}'', ''<p>x</p>'')])"
    by (simp add: replacements_def draft_quoting_def draft_a_def tagline_def)
  have later: "\<forall>(k', v') \<in> set [(''{{THUMB}}'', ''t.webp''), (''{{THUMB_OG}}'', ''t.webp''),
              (''{{TAGLINE}}'', ''Insight Chronicles''), (''{{CONTENT}}'', ''<p>x</p>'')].
            \<not> str_contains k' ''{{TITLE}} 2025''"
    by simp
  have pre: "brace_free ''<b>''" and suf: "brace_free ''</b>''"
    by (simp_all add: brace_free_def)
  show ?thesis
    using build_article_html_value_survives [OF rs later pre suf, THEN conjunct1] pre suf
    by simp
qed

section \<open>The articles index page\<close>

text \<open>
  Claim C6: the page is the shell around the cards of the articles in the order
  \<open>sorted_by_date\<close>, a permutation of the article sequence, and in that order an
  article with a greater date (as strings) stands before one with a smaller date. The
  page is produced whenever every article has a title and a slug.
\<close>

theorem make_articles_page_date_order:
  "(\<forall>doc. make_articles_page articles = Inr doc \<longrightarrow>
      (\<exists>cards. doc = articles_page_head @ concat cards @ articles_page_tail
         \<and> list_all2 (\<lambda>a card. articles_card a = Inr card) (sorted_by_date articles) cards))
   \<and> mset (sorted_by_date articles) = mset articles
   \<and> (\<forall>i j. i < length articles \<and> j < length articles
         \<and> date_key (sorted_by_date articles ! j) < date_key (sorted_by_date articles ! i)
         \<longrightarrow> i < j)
   \<and> ((\<forall>a \<in> set articles. a_title a \<noteq> None \<and> a_slug a \<noteq> None)
         \<longrightarrow> (\<exists>doc. make_articles_page articles = Inr doc))"
proof (intro conjI allI impI)
  fix doc assume "make_articles_page articles = Inr doc"
  then obtain cards where "map_err articles_card (sorted_by_date articles) = Inr cards"
    and "doc = articles_page_head @ concat cards @ articles_page_tail"
    by (auto simp: make_articles_page_def bind_err_def split: sum.splits)
  then show "\<exists>cards. doc = articles_page_head @ concat cards @ articles_page_tail
         \<and> list_all2 (\<lambda>a card. articles_card a = Inr card) (sorted_by_date articles) cards"
    using map_err_list_all2 by blast
next
  show "mset (sorted_by_date articles) = mset articles"
    by (rule mset_sorted_by_date)
next
  fix i j
  assume "i < length articles \<and> j < length articles
         \<and> date_key (sorted_by_date articles ! j) < date_key (sorted_by_date articles ! i)"
  then show "i < j" using sorted_by_date_position by blast
next
  assume wf: "\<forall>a \<in> set articles. a_title a \<noteq> None \<and> a_slug a \<noteq> None"
  have "\<forall>a \<in> set (sorted_by_date articles). \<exists>card. articles_card a = Inr card"
    using wf by (auto simp: set_sorted_by_date articles_card_def)
  then obtain cards where "map_err articles_card (sorted_by_date articles) = Inr cards"
    using map_err_total by blast
  then show "\<exists>doc. make_articles_page articles = Inr doc"
    by (simp add: make_articles_page_def)
qed

theorem make_articles_page_date_order_witness:
  "sorted_by_date [article_a, article_b] = [article_b, article_a]
   \<and> date_key article_a < date_key article_b
   \<and> (\<exists>doc cards. make_articles_page [article_a, article_b] = Inr doc
        \<and> doc = articles_page_head @ concat cards @ articles_page_tail
        \<and> list_all2 (\<lambda>a card. articles_card a = Inr card) [article_b, article_a] cards)
   \<and> date_key (sorted_by_date [article_a, article_b] ! 1)
       < date_key (sorted_by_date [article_a, article_b] ! 0)
   \<and> (0::nat) < 1"
proof -
  let ?as = "[article_a, article_b]"
  have keys: "date_key article_a = ''2025-01-01''" "date_key article_b = ''2025-02-01''"
    by (simp_all add: date_key_def article_a_def article_b_def)
  have sorted: "sorted_by_date ?as = [article_b, article_a]"
    by (simp add: sorted_by_date_def keys)
  have lt: "date_key article_a < date_key article_b"
    by (simp add: keys)
  have wf: "\<forall>a \<in> set ?as. a_title a \<noteq> None \<and> a_slug a \<noteq> None"
    by (simp add: article_a_def article_b_def)
  note order = make_articles_page_date_order [of ?as]
  from order wf obtain doc where doc: "make_articles_page ?as = Inr doc" by blast
  with order obtain cards where "doc = articles_page_head @ concat cards @ articles_page_tail"
    "list_all2 (\<lambda>a card. articles_card a = Inr card) (sorted_by_date ?as) cards" by blast
  moreover have pos: "date_key (sorted_by_date ?as ! 1) < date_key (sorted_by_date ?as ! 0)"
    using sorted lt by simp
  moreover have "(0::nat) < 1"
    using order pos by simp
  ultimately show ?thesis
    using sorted lt doc by auto
qed

section \<open>The sitemap\<close>

lemma str_count_url_escape [simp]:
  "str_count ''<url>'' (escape u @ s) = str_count ''<url>'' s"
  by (rule str_count_skip) (simp_all add: escape_no_lt)

lemma str_count_join_lines:
  assumes "\<forall>l \<in> set ls. one_url l"
  shows "str_count ''<url>'' (join ''\<newline>'' ls @ s) = length ls + str_count ''<url>'' s"
  using assms
proof (induction ls rule: induct_list012)
  case 1
  show ?case by simp
next
  case (2 x)
  then show ?case by simp
next
  case (3 x y ys)
  then have "one_url x" by simp
  then have "str_count ''<url>'' (x @ ''\<newline>'' @ join ''\<newline>'' (y # ys) @ s)
      = Suc (str_count ''<url>'' (''\<newline>'' @ join ''\<newline>'' (y # ys) @ s))"
    by blast
  with 3 show ?case by simp
qed

lemma one_url_fixed: "\<forall>l \<in> set sitemap_fixed_urls. one_url l"
  by (simp add: sitemap_fixed_urls_def SITE_URL_def)

lemma one_url_category:
  "\<forall>l \<in> set (map (\<lambda>(name, cat). sitemap_category_url cat) CATEGORIES). one_url l"
  by (simp add: CATEGORIES_def sitemap_category_url_def SITE_URL_def)

lemma one_url_article: "sitemap_article_url a = Inr l \<Longrightarrow> one_url l"
  by (auto simp: sitemap_article_url_def bind_err_def getitem_def
      split: option.splits)

lemma str_count_sitemap_head: "str_count ''<url>'' (sitemap_head @ s) = str_count ''<url>'' s"
  by (simp add: sitemap_head_def)

lemma str_count_sitemap_tail: "str_count ''<url>'' sitemap_tail = 0"
  by (simp add: sitemap_tail_def)

text \<open>
  Claim C7: the sitemap is the XML shell around the lines joined by newlines: the three
  fixed entries, one entry per configured category, and one entry per article in the
  order \<open>sorted_by_date\<close> (a permutation of the article sequence, descending by
  date). The text \<open><url>\<close> occurs in the document exactly
  3 + (number of categories) + (number of articles) times. The sitemap is produced
  whenever every article has a url.
\<close>

theorem make_sitemap_entries:
  "(\<forall>doc. make_sitemap articles = Inr doc \<longrightarrow>
      (\<exists>article_urls.
         doc = sitemap_head
               @ join ''\<newline>''
                   (sitemap_fixed_urls
                    @ map (\<lambda>(name, cat). sitemap_category_url cat) CATEGORIES
                    @ article_urls)
               @ sitemap_tail
         \<and> list_all2 (\<lambda>a u. sitemap_article_url a = Inr u) (sorted_by_date articles) article_urls)
      \<and> str_count ''<url>'' doc = 3 + length CATEGORIES + length articles)
   \<and> length sitemap_fixed_urls = 3
   \<and> mset (sorted_by_date articles) = mset articles
   \<and> sorted_wrt (\<lambda>a b. date_key b \<le> date_key a) (sorted_by_date articles)
   \<and> ((\<forall>a \<in> set articles. a_url a \<noteq> None) \<longrightarrow> (\<exists>doc. make_sitemap articles = Inr doc))"
proof (intro conjI allI impI)
  fix doc assume doc: "make_sitemap articles = Inr doc"
  let ?cats = "map (\<lambda>(name, cat). sitemap_category_url cat) CATEGORIES"
  from doc obtain us where us: "map_err sitemap_article_url (sorted_by_date articles) = Inr us"
    and eq: "doc = sitemap_head @ join ''\<newline>'' (sitemap_fixed_urls @ ?cats @ us) @ sitemap_tail"
    by (auto simp: make_sitemap_def bind_err_def split: sum.splits)
  have all2: "list_all2 (\<lambda>a u. sitemap_article_url a = Inr u) (sorted_by_date articles) us"
    using us by (rule map_err_list_all2)
  then show "\<exists>article_urls.
         doc = sitemap_head
               @ join ''\<newline>'' (sitemap_fixed_urls @ ?cats @ article_urls)
               @ sitemap_tail
         \<and> list_all2 (\<lambda>a u. sitemap_article_url a = Inr u) (sorted_by_date articles) article_urls"
    using eq by blast
  have len: "length us = length articles"
    using all2 by (simp add: list_all2_lengthD [symmetric] length_sorted_by_date)
  have "\<forall>l \<in> set us. one_url l"
  proof
    fix l assume "l \<in> set us"
    then obtain i where "i < length us" "us ! i = l"
      by (auto simp: in_set_conv_nth)
    then have "sitemap_article_url (sorted_by_date articles ! i) = Inr l"
      using all2 by (auto simp: list_all2_conv_all_nth)
    then show "one_url l" by (rule one_url_article)
  qed
  then have lines: "\<forall>l \<in> set (sitemap_fixed_urls @ ?cats @ us). one_url l"
    using one_url_fixed one_url_category by auto
  have "str_count ''<url>'' doc
      = length (sitemap_fixed_urls @ ?cats @ us) + str_count ''<url>'' sitemap_tail"
    unfolding eq str_count_sitemap_head by (rule str_count_join_lines [OF lines])
  then show "str_count ''<url>'' doc = 3 + length CATEGORIES + length articles"
    by (simp add: str_count_sitemap_tail len sitemap_fixed_urls_def)
next
  show "length sitemap_fixed_urls = 3"
    by (simp add: sitemap_fixed_urls_def)
next
  show "mset (sorted_by_date articles) = mset articles"
    by (rule mset_sorted_by_date)
next
  show "sorted_wrt (\<lambda>a b. date_key b \<le> date_key a) (sorted_by_date articles)"
    by (rule sorted_by_date_descending)
next
  assume wf: "\<forall>a \<in> set articles. a_url a \<noteq> None"
  have "\<forall>a \<in> set (sorted_by_date articles). \<exists>u. sitemap_article_url a = Inr u"
    using wf by (auto simp: set_sorted_by_date sitemap_article_url_def)
  then obtain us where "map_err sitemap_article_url (sorted_by_date articles) = Inr us"
    using map_err_total by blast
  then show "\<exists>doc. make_sitemap articles = Inr doc"
    by (simp add: make_sitemap_def)
qed

theorem make_sitemap_entries_witness:
  "sorted_by_date [article_a, article_b] = [article_b, article_a]
   \<and> (\<exists>doc article_urls. make_sitemap [article_a, article_b] = Inr doc
        \<and> list_all2 (\<lambda>a u. sitemap_article_url a = Inr u) [article_b, article_a] article_urls
        \<and> str_count ''<url>'' doc = 9)"
proof -
  let ?as = "[article_a, article_b]"
  have keys: "date_key article_a = ''2025-01-01''" "date_key article_b = ''2025-02-01''"
    by (simp_all add: date_key_def article_a_def article_b_def)
  have sorted: "sorted_by_date ?as = [article_b, article_a]"
    by (simp add: sorted_by_date_def keys)
  have wf: "\<forall>a \<in> set ?as. a_url a \<noteq> None"
    by (simp add: article_a_def article_b_def)
  note entries = make_sitemap_entries [of ?as]
  from entries wf obtain doc where doc: "make_sitemap ?as = Inr doc" by blast
  with entries obtain us where
    "list_all2 (\<lambda>a u. sitemap_article_url a = Inr u) (sorted_by_date ?as) us" by blast
  moreover have "str_count ''<url>'' doc = 3 + length CATEGORIES + length ?as"
    using entries doc by blast
  ultimately show ?thesis
    using sorted doc by (auto simp: CATEGORIES_def)
qed

section \<open>Category pages\<close>

lemma category_articles_mset:
  "mset (category_articles tag_name articles)
     = filter_mset (\<lambda>a. tag_name \<in> set (dict_get (a_tags a) [])) (mset articles)"
  by (simp add: category_articles_def mset_sorted_by_date)

text \<open>
  Claim C2 as stated: an article is on a category page if and only if the category key
  matches by substring against its tags. The code tests \<open>tag_name in tags\<close> on the
  list of tags, which is equality with one of the tags: an article whose only tag is
  \<open>Ancient History\<close> contains the key \<open>History\<close> as a substring of a tag and is not
  on the History page, which shows the placeholder.
\<close>

theorem make_category_page_substring_counterexample:
  "(''History'', info_history) \<in> set CATEGORIES
   \<and> a_tags article_c = Some [''Ancient History'']
   \<and> str_contains ''History'' ''Ancient History''
   \<and> category_articles ''History'' [article_c] = []
   \<and> make_category_page ''History'' info_history [article_c] =
       Inr (category_page_head info_history @ category_empty_html @ category_page_tail)"
  by (simp add: category_articles_def article_c_def sorted_by_date_def make_category_page_def
      CATEGORIES_def info_history_def)

text \<open>
  Claim C2 as amended: the cards of a category page are those of the articles in
  \<open>category_articles\<close>; an article is among them if and only if it is in the article
  sequence and the category key equals one of its tags (as often as it is in the
  sequence), and they are sorted by date descending. The page is produced whenever
  every article has a title and a slug.
\<close>

theorem make_category_page_membership:
  "(\<forall>doc. make_category_page tag_name info articles = Inr doc \<longrightarrow>
      (\<exists>cards.
         doc = category_page_head info
               @ (if cards = [] then category_empty_html else join ''\<newline>'' cards)
               @ category_page_tail
         \<and> list_all2 (\<lambda>a card. category_card a = Inr card)
              (category_articles tag_name articles) cards))
   \<and> (\<forall>a. a \<in> set (category_articles tag_name articles)
         \<longleftrightarrow> a \<in> set articles \<and> tag_name \<in> set (dict_get (a_tags a) []))
   \<and> mset (category_articles tag_name articles)
       = filter_mset (\<lambda>a. tag_name \<in> set (dict_get (a_tags a) [])) (mset articles)
   \<and> sorted_wrt (\<lambda>a b. date_key b \<le> date_key a) (category_articles tag_name articles)
   \<and> ((\<forall>a \<in> set articles. a_title a \<noteq> None \<and> a_slug a \<noteq> None)
         \<longrightarrow> (\<exists>doc. make_category_page tag_name info articles = Inr doc))"
proof (intro conjI allI impI)
  fix doc assume "make_category_page tag_name info articles = Inr doc"
  then obtain cards where
    "map_err category_card (category_articles tag_name articles) = Inr cards"
    "doc = category_page_head info
               @ (if cards = [] then category_empty_html else join ''\<newline>'' cards)
               @ category_page_tail"
    by (auto simp: make_category_page_def bind_err_def split: sum.splits)
  then show "\<exists>cards.
         doc = category_page_head info
               @ (if cards = [] then category_empty_html else join ''\<newline>'' cards)
               @ category_page_tail
         \<and> list_all2 (\<lambda>a card. category_card a = Inr card)
              (category_articles tag_name articles) cards"
    using map_err_list_all2 by blast
next
  fix a
  show "a \<in> set (category_articles tag_name articles)
         \<longleftrightarrow> a \<in> set articles \<and> tag_name \<in> set (dict_get (a_tags a) [])"
    by (simp add: category_articles_def set_sorted_by_date)
next
  show "mset (category_articles tag_name articles)
       = filter_mset (\<lambda>a. tag_name \<in> set (dict_get (a_tags a) [])) (mset articles)"
    by (rule category_articles_mset)
next
  show "sorted_wrt (\<lambda>a b. date_key b \<le> date_key a) (category_articles tag_name articles)"
    unfolding category_articles_def by (rule sorted_by_date_descending)
next
  assume wf: "\<forall>a \<in> set articles. a_title a \<noteq> None \<and> a_slug a \<noteq> None"
  have "\<forall>a \<in> set (category_articles tag_name articles). \<exists>card. category_card a = Inr card"
    using wf by (auto simp: category_articles_def set_sorted_by_date category_card_def)
  then obtain cards where
    "map_err category_card (category_articles tag_name articles) = Inr cards"
    using map_err_total by blast
  then show "\<exists>doc. make_category_page tag_name info articles = Inr doc"
    by (simp add: make_category_page_def)
qed

theorem make_category_page_membership_witness:
  "category_articles ''History'' [article_a, article_b, article_c] = [article_b]
   \<and> article_b \<in> set [article_a, article_b, article_c]
   \<and> ''History'' \<in> set (dict_get (a_tags article_b) [])
   \<and> (\<exists>doc cards. make_category_page ''History'' info_history [article_a, article_b, article_c]
          = Inr doc
        \<and> list_all2 (\<lambda>a card. category_card a = Inr card) [article_b] cards)"
proof -
  let ?as = "[article_a, article_b, article_c]"
  have tags: "dict_get (a_tags article_a) [] = []"
    "dict_get (a_tags article_b) [] = [''History'', ''Ancient History'', ''Rome'', ''Trade'']"
    "dict_get (a_tags article_c) [] = [''Ancient History'']"
    by (simp_all add: article_a_def article_b_def article_c_def)
  have cat: "category_articles ''History'' ?as = [article_b]"
    by (simp add: category_articles_def tags sorted_by_date_def)
  have wf: "\<forall>a \<in> set ?as. a_title a \<noteq> None \<and> a_slug a \<noteq> None"
    by (simp add: article_a_def article_b_def article_c_def)
  note page = make_category_page_membership [of "''History''" info_history ?as]
  from page wf obtain doc where
    doc: "make_category_page ''History'' info_history ?as = Inr doc" by blast
  with page obtain cards where
    "list_all2 (\<lambda>a card. category_card a = Inr card) (category_articles ''History'' ?as) cards"
    by blast
  moreover have "article_b \<in> set (category_articles ''History'' ?as)"
    using cat by simp
  then have "article_b \<in> set ?as \<and> ''History'' \<in> set (dict_get (a_tags article_b) [])"
    using page by blast
  ultimately show ?thesis
    using cat doc by auto
qed

section \<open>The RSS feed\<close>



section \<open>Homepage cards\<close>

lemma date_key_first_three_tags [simp]: "date_key (first_three_tags a) = date_key a"
  by (simp add: date_key_def first_three_tags_def)

lemma sorted_by_date_first_three_tags:
  "sorted_by_date (map first_three_tags articles) = map first_three_tags (sorted_by_date articles)"
  by (simp add: sorted_by_date_def rev_map sort_key_map)

lemma homepage_tag_spans_take: "homepage_tag_spans (take 3 tags) = homepage_tag_spans tags"
  by (simp add: homepage_tag_spans_def)

lemma homepage_card_first_three_tags: "homepage_card (first_three_tags a) = homepage_card a"
proof (cases "a_tags a")
  case None
  then show ?thesis by (simp add: homepage_card_def first_three_tags_def)
next
  case (Some tags)
  then show ?thesis
    using homepage_tag_spans_take [of tags]
    by (simp add: homepage_card_def first_three_tags_def)
qed

lemma str_count_span_escape:
  "str_count ''<span'' (escape t @ s) = str_count ''<span'' s"
  by (rule str_count_skip) (simp_all add: escape_no_lt)

lemma str_count_tag_spans:
  \<open>str_count ''<span''
      (concat (map (\<lambda>t. ''<span class="ic-tag">'' @ escape t @ ''</span>'') ts) @ s)
    = length ts + str_count ''<span'' s\<close>
  by (induction ts) (simp_all add: str_count_span_escape)

text \<open>
  Claim C10: a homepage card renders the spans of the first three tags only. The tag
  spans of a tag list are those of its first three entries; the text \<open><span\<close> occurs
  in them min 3 (number of tags) times; and removing every tag behind the third from
  every article changes neither a card nor the fragment.
\<close>

theorem homepage_card_first_three_tags_only:
  "homepage_tag_spans tags = homepage_tag_spans (take 3 tags)
   \<and> str_count ''<span'' (homepage_tag_spans tags) = min 3 (length tags)
   \<and> homepage_card (first_three_tags a) = homepage_card a
   \<and> make_homepage_cards (map first_three_tags articles) limit
       = make_homepage_cards articles limit"
proof (intro conjI)
  show "homepage_tag_spans tags = homepage_tag_spans (take 3 tags)"
    by (simp add: homepage_tag_spans_take)
  show "str_count ''<span'' (homepage_tag_spans tags) = min 3 (length tags)"
    using str_count_tag_spans [of "take 3 tags" "[]"]
    by (simp add: homepage_tag_spans_def min.commute)
  show "homepage_card (first_three_tags a) = homepage_card a"
    by (rule homepage_card_first_three_tags)
  show "make_homepage_cards (map first_three_tags articles) limit
       = make_homepage_cards articles limit"
    by (simp add: make_homepage_cards_def sorted_by_date_first_three_tags take_map
        map_err_map homepage_card_first_three_tags)
qed

theorem homepage_card_first_three_tags_only_witness:
  "dict_get (a_tags article_b) [] = [''History'', ''Ancient History'', ''Rome'', ''Trade'']
   \<and> str_count ''<span'' (homepage_tag_spans (dict_get (a_tags article_b) [])) = 3
   \<and> homepage_tag_spans (dict_get (a_tags article_b) [])
       = homepage_tag_spans [''History'', ''Ancient History'', ''Rome'']"
proof -
  let ?tags = "[''History'', ''Ancient History'', ''Rome'', ''Trade'']"
  have tags: "dict_get (a_tags article_b) [] = ?tags"
    by (simp add: article_b_def)
  note only = homepage_card_first_three_tags_only [of ?tags article_b "[]" 0]
  have "str_count ''<span'' (homepage_tag_spans ?tags) = min 3 (length ?tags)"
    using only by blast
  then have count: "str_count ''<span'' (homepage_tag_spans ?tags) = 3"
    by simp
  have "homepage_tag_spans ?tags = homepage_tag_spans (take 3 ?tags)"
    using only by blast
  then have same: "homepage_tag_spans ?tags = homepage_tag_spans [''History'', ''Ancient History'', ''Rome'']"
    by simp
  show ?thesis
    unfolding tags using tags count same by blast
qed

section \<open>The homepage update\<close>






end
